theory Spec2Isabelle
  imports Complex_Main "HOL-Library.Word" "HOL-Library.Sublist" "HOL-Library.Option_ord"
    "HOL-Library.Multiset"
begin

section \<open>The Comment model of the blog backend (models/Comment.js)\<close>

text \<open>
  The theory embeds the Mongoose schema \<^verbatim>\<open>commentSchema\<close>: its fields and defaults, the
  \<^verbatim>\<open>pre('save')\<close> middleware with the spam heuristic, the static query
  \<^verbatim>\<open>findApprovedByPost\<close> and the instance methods \<^verbatim>\<open>approve\<close>, \<^verbatim>\<open>reject\<close>,
  \<^verbatim>\<open>markAsSpam\<close>, \<^verbatim>\<open>addReply\<close> and \<^verbatim>\<open>toggleLike\<close>.

  Conventions of the embedding.
  \<^item> A JavaScript string is a list of UTF-16 code units; \<^verbatim>\<open>.length\<close> is the length of
    that list, and a regular expression without the \<^verbatim>\<open>u\<close> flag works on code units.
  \<^item> A document is a record of the schema's paths together with the two pieces of
    document state the code reads: \<^verbatim>\<open>isNew\<close> and the set of modified paths
    (\<^verbatim>\<open>isModified\<close>).
  \<^item> \<^verbatim>\<open>new Date()\<close> is a parameter \<open>now\<close> (milliseconds); each operation reads the clock
    once.
  \<^item> \<^verbatim>\<open>save()\<close> is modelled for documents that pass schema validation and reach the
    store: the timestamps of the option \<^verbatim>\<open>timestamps: true\<close>, then the \<^verbatim>\<open>pre('save')\<close>
    middleware of the schema, then the reset of the document state.
\<close>

subsection \<open>JavaScript strings\<close>

type_synonym unit16 = "16 word"
type_synonym jsstring = "unit16 list"

definition js :: "string \<Rightarrow> jsstring" where
  \<comment> \<open>the code units of an ASCII literal\<close>
  "js s = map of_char s"

definition isUpper :: "unit16 \<Rightarrow> bool" where
  \<comment> \<open>the character class \<^verbatim>\<open>[A-Z]\<close>\<close>
  "isUpper u = (0x41 \<le> u \<and> u \<le> 0x5A)"

definition isLineTerminator :: "unit16 \<Rightarrow> bool" where
  \<comment> \<open>LF, CR, LS, PS: what \<^verbatim>\<open>.\<close> does not match without the \<^verbatim>\<open>s\<close> flag\<close>
  "isLineTerminator u = (u = 0x0A \<or> u = 0x0D \<or> u = 0x2028 \<or> u = 0x2029)"

definition isWhiteSpace :: "unit16 \<Rightarrow> bool" where
  \<comment> \<open>what \<^verbatim>\<open>String.prototype.trim\<close> strips: WhiteSpace and LineTerminator\<close>
  "isWhiteSpace u =
     (u = 0x09 \<or> u = 0x0B \<or> u = 0x0C \<or> u = 0x20 \<or> u = 0xA0 \<or> u = 0x1680
      \<or> (0x2000 \<le> u \<and> u \<le> 0x200A) \<or> u = 0x202F \<or> u = 0x205F \<or> u = 0x3000
      \<or> u = 0xFEFF \<or> isLineTerminator u)"

definition trim :: "jsstring \<Rightarrow> jsstring" where
  "trim s = rev (dropWhile isWhiteSpace (rev (dropWhile isWhiteSpace s)))"

definition lowerUnit :: "unit16 \<Rightarrow> jsstring" where
  \<comment> \<open>\<^verbatim>\<open>toLowerCase\<close> on one code unit. The only code points whose lower-case form
      contains an ASCII unit are A-Z, U+0130 (to i, U+0307) and U+212A (to k); every
      other unit is kept as it is here, its Unicode image being non-ASCII as well, so
      that containment of an ASCII word is the one of the JavaScript string.\<close>
  "lowerUnit u =
     (if isUpper u then [u + 0x20]
      else if u = 0x130 then [0x69, 0x307]
      else if u = 0x212A then [0x6B]
      else [u])"

definition toLowerCase :: "jsstring \<Rightarrow> jsstring" where
  "toLowerCase s = concat (map lowerUnit s)"

fun str_includes :: "jsstring \<Rightarrow> jsstring \<Rightarrow> bool" where
  \<comment> \<open>\<^verbatim>\<open>String.prototype.includes\<close>: the word occurs at some position\<close>
  "str_includes [] w = (w = [])"
| "str_includes (c # cs) w = (prefix w (c # cs) \<or> str_includes cs w)"

subsection \<open>The spam heuristic of the pre-save middleware\<close>

fun linkCount :: "jsstring \<Rightarrow> nat" where
  \<comment> \<open>\<^verbatim>\<open>(content.match(/https?:\/\//g) || []).length\<close>: the scan resumes after a match\<close>
  "linkCount [] = 0"
| "linkCount (c # cs) =
     (if prefix (js ''https://'') (c # cs) then Suc (linkCount (drop 7 cs))
      else if prefix (js ''http://'') (c # cs) then Suc (linkCount (drop 6 cs))
      else linkCount cs)"

definition capsRatio :: "jsstring \<Rightarrow> rat" where
  \<comment> \<open>\<^verbatim>\<open>(content.match(/[A-Z]/g) || []).length / content.length\<close>. The quotient of two
      lengths is compared with 0.3 only; a quotient of naturals below \<open>2^50\<close> that is not
      3/10 differs from it by more than the rounding of a double, so the exact rational
      decides the comparison as the double does (0/0 is NaN there and 0 here: both are
      not above 0.3).\<close>
  "capsRatio s = of_nat (length (filter isUpper s)) / of_nat (length s)"

fun hasRepeat :: "jsstring \<Rightarrow> bool" where
  \<comment> \<open>\<^verbatim>\<open>/(.)\1{4,}/.test(content)\<close>: some unit that \<^verbatim>\<open>.\<close> matches is followed by at
      least four copies of itself\<close>
  "hasRepeat [] = False"
| "hasRepeat (c # cs) =
     ((\<not> isLineTerminator c \<and> take 4 cs = [c, c, c, c]) \<or> hasRepeat cs)"

definition spamWords :: "jsstring list" where
  "spamWords = [js ''viagra'', js ''casino'', js ''lottery'', js ''prize'', js ''winner'',
                js ''free money'']"

definition linkRule :: "jsstring \<Rightarrow> int \<Rightarrow> int" where
  "linkRule content spamScore =
     (let linkCount = linkCount content;
          spamScore = (if linkCount > 2 then spamScore + 30 else spamScore);
          spamScore = (if linkCount > 5 then spamScore + 50 else spamScore)
      in spamScore)"

definition capsRule :: "jsstring \<Rightarrow> int \<Rightarrow> int" where
  "capsRule content spamScore =
     (if capsRatio content > 3 / 10 then spamScore + 20 else spamScore)"

definition repeatRule :: "jsstring \<Rightarrow> int \<Rightarrow> int" where
  "repeatRule content spamScore = (if hasRepeat content then spamScore + 15 else spamScore)"

definition wordRule :: "jsstring \<Rightarrow> int \<Rightarrow> int" where
  "wordRule content spamScore =
     (let lowerContent = toLowerCase content
      in fold (\<lambda>word spamScore. if str_includes lowerContent word then spamScore + 25 else spamScore)
           spamWords spamScore)"

definition rawSpamScore :: "jsstring \<Rightarrow> int" where
  \<comment> \<open>the running total before \<^verbatim>\<open>Math.min\<close>, the four rules in the order of the source\<close>
  "rawSpamScore content = wordRule content (repeatRule content (capsRule content (linkRule content 0)))"

definition spamScoreOf :: "jsstring \<Rightarrow> int" where
  \<comment> \<open>\<^verbatim>\<open>Math.min(spamScore, 100)\<close>\<close>
  "spamScoreOf content = min (rawSpamScore content) 100"

fun anyRunOfFive :: "jsstring \<Rightarrow> bool" where
  \<comment> \<open>the rule in the words of the specification: some run of one and the same
      character, whatever it is, of length five or more\<close>
  "anyRunOfFive [] = False"
| "anyRunOfFive (c # cs) = (take 4 cs = [c, c, c, c] \<or> anyRunOfFive cs)"

subsection \<open>Documents\<close>

type_synonym oid = nat
type_synonym date = nat

datatype status = Pending | Approved | Rejected | Spam

datatype flower = Rose | Daisy | Lavender | Sunflower | Tulip | Lily | Orchid | Jasmine
  | OtherFlower

datatype mood = Happy | Inspired | Peaceful | Excited | Grateful | Curious | OtherMood

record author =
  name :: jsstring
  email :: jsstring
  website :: jsstring
  userId :: "oid option"

text \<open>
  An element of \<^verbatim>\<open>likes\<close> has the paths \<^verbatim>\<open>user\<close> and \<^verbatim>\<open>createdAt\<close> (by default the time
  at which the element is made). In the record of a comment \<open>docId\<close> is \<^verbatim>\<open>_id\<close>, and
  \<open>createdAt\<close> and \<open>updatedAt\<close> are the two paths of the option \<^verbatim>\<open>timestamps: true\<close>,
  absent until the first save.
\<close>

record like =
  like_user :: oid
  like_createdAt :: date

record comment =
  docId :: oid
  postId :: oid
  author :: author
  content :: jsstring
  status :: status
  parentComment :: "oid option"
  replies :: "oid list"
  likes :: "like list"
  isEdited :: bool
  editedAt :: "date option"
  moderatedBy :: "oid option"
  moderatedAt :: "date option"
  moderationReason :: "jsstring option"
  ipAddress :: jsstring
  userAgent :: jsstring
  spamScore :: int
  favoriteFlower :: flower
  mood :: mood
  createdAt :: "date option"
  updatedAt :: "date option"
  isNew :: bool
  modifiedPaths :: "string set"

text \<open>
  An assignment to a path marks it modified when the document is new or the value
  differs from the one it replaces.
\<close>

definition touch :: "string \<Rightarrow> bool \<Rightarrow> comment \<Rightarrow> comment" where
  "touch path changed d =
     (if isNew d \<or> changed then d\<lparr>modifiedPaths := insert path (modifiedPaths d)\<rparr> else d)"

definition set_content :: "jsstring \<Rightarrow> comment \<Rightarrow> comment" where
  "set_content v d = touch ''content'' (content d \<noteq> trim v) (d\<lparr>content := trim v\<rparr>)"

definition set_status :: "status \<Rightarrow> comment \<Rightarrow> comment" where
  "set_status v d = touch ''status'' (status d \<noteq> v) (d\<lparr>status := v\<rparr>)"

definition set_isEdited :: "bool \<Rightarrow> comment \<Rightarrow> comment" where
  "set_isEdited v d = touch ''isEdited'' (isEdited d \<noteq> v) (d\<lparr>isEdited := v\<rparr>)"

definition set_editedAt :: "date \<Rightarrow> comment \<Rightarrow> comment" where
  "set_editedAt v d = touch ''editedAt'' (editedAt d \<noteq> Some v) (d\<lparr>editedAt := Some v\<rparr>)"

definition set_moderatedBy :: "oid \<Rightarrow> comment \<Rightarrow> comment" where
  "set_moderatedBy v d =
     touch ''moderatedBy'' (moderatedBy d \<noteq> Some v) (d\<lparr>moderatedBy := Some v\<rparr>)"

definition set_moderatedAt :: "date \<Rightarrow> comment \<Rightarrow> comment" where
  "set_moderatedAt v d =
     touch ''moderatedAt'' (moderatedAt d \<noteq> Some v) (d\<lparr>moderatedAt := Some v\<rparr>)"

definition set_moderationReason :: "jsstring \<Rightarrow> comment \<Rightarrow> comment" where
  "set_moderationReason v d =
     touch ''moderationReason'' (moderationReason d \<noteq> Some (trim v))
       (d\<lparr>moderationReason := Some (trim v)\<rparr>)"

definition set_spamScore :: "int \<Rightarrow> comment \<Rightarrow> comment" where
  "set_spamScore v d = touch ''spamScore'' (spamScore d \<noteq> v) (d\<lparr>spamScore := v\<rparr>)"

definition set_likes :: "like list \<Rightarrow> comment \<Rightarrow> comment" where
  "set_likes v d = touch ''likes'' (likes d \<noteq> v) (d\<lparr>likes := v\<rparr>)"

definition push_likes :: "like \<Rightarrow> comment \<Rightarrow> comment" where
  "push_likes l d = touch ''likes'' True (d\<lparr>likes := likes d @ [l]\<rparr>)"


subsection \<open>Creation\<close>

record submission =
  sub_postId :: oid
  sub_author :: author
  sub_content :: jsstring
  sub_parentComment :: "oid option"
  sub_ipAddress :: jsstring
  sub_userAgent :: jsstring
  sub_favoriteFlower :: "flower option"
  sub_mood :: "mood option"

definition newComment :: "oid \<Rightarrow> submission \<Rightarrow> comment" where
  \<comment> \<open>\<^verbatim>\<open>new Comment({...})\<close> from the fields a submission carries: the schema's defaults
      for every other path, the setters \<^verbatim>\<open>trim\<close> and \<^verbatim>\<open>lowercase\<close> on the strings\<close>
  "newComment i s =
     \<lparr> docId = i,
       postId = sub_postId s,
       author = \<lparr> name = trim (name (sub_author s)),
                  email = trim (toLowerCase (email (sub_author s))),
                  website = trim (website (sub_author s)),
                  userId = userId (sub_author s) \<rparr>,
       content = trim (sub_content s),
       status = Pending,
       parentComment = sub_parentComment s,
       replies = [],
       likes = [],
       isEdited = False,
       editedAt = None,
       moderatedBy = None,
       moderatedAt = None,
       moderationReason = None,
       ipAddress = sub_ipAddress s,
       userAgent = sub_userAgent s,
       spamScore = 0,
       favoriteFlower = (case sub_favoriteFlower s of None \<Rightarrow> OtherFlower | Some f \<Rightarrow> f),
       mood = (case sub_mood s of None \<Rightarrow> OtherMood | Some m \<Rightarrow> m),
       createdAt = None,
       updatedAt = None,
       isNew = True,
       modifiedPaths =
         {''postId'', ''author.name'', ''author.email'', ''author.website'', ''content'',
          ''ipAddress'', ''userAgent''}
         \<union> (case userId (sub_author s) of None \<Rightarrow> {} | Some _ \<Rightarrow> {''author.userId''})
         \<union> (case sub_parentComment s of None \<Rightarrow> {} | Some _ \<Rightarrow> {''parentComment''})
         \<union> (case sub_favoriteFlower s of None \<Rightarrow> {} | Some _ \<Rightarrow> {''favoriteFlower''})
         \<union> (case sub_mood s of None \<Rightarrow> {} | Some _ \<Rightarrow> {''mood''}) \<rparr>"

subsection \<open>Saving\<close>

definition timestampsPreSave :: "date \<Rightarrow> comment \<Rightarrow> comment" where
  \<comment> \<open>the option \<^verbatim>\<open>timestamps: true\<close>: \<^verbatim>\<open>createdAt\<close> once, on the first save;
      \<^verbatim>\<open>updatedAt\<close> on the first save and on every save of a modified document\<close>
  "timestampsPreSave now d =
     (let d = (if isNew d \<and> createdAt d = None then d\<lparr>createdAt := Some now\<rparr> else d);
          d = (if isNew d then d\<lparr>updatedAt := createdAt d\<rparr>
               else if modifiedPaths d \<noteq> {} then d\<lparr>updatedAt := Some now\<rparr>
               else d)
      in d)"

definition autoFlag :: "comment \<Rightarrow> comment" where
  \<comment> \<open>\<^verbatim>\<open>if (this.spamScore >= 70) this.status = 'spam'\<close>\<close>
  "autoFlag d = (if spamScore d \<ge> 70 then set_status Spam d else d)"

definition preSave :: "date \<Rightarrow> comment \<Rightarrow> comment" where
  \<comment> \<open>\<^verbatim>\<open>commentSchema.pre('save', ...)\<close>\<close>
  "preSave now d =
     (let d = (if ''content'' \<in> modifiedPaths d \<and> \<not> isNew d
               then set_editedAt now (set_isEdited True d) else d)
      in if isNew d then autoFlag (set_spamScore (spamScoreOf (content d)) d) else d)"

definition save :: "date \<Rightarrow> comment \<Rightarrow> comment" where
  "save now d = (preSave now (timestampsPreSave now d))\<lparr>isNew := False, modifiedPaths := {}\<rparr>"

subsection \<open>Instance methods\<close>

definition approve :: "date \<Rightarrow> oid \<Rightarrow> jsstring option \<Rightarrow> comment \<Rightarrow> comment" where
  "approve now moderatorId reason d =
     (let d = set_status Approved d;
          d = set_moderatedBy moderatorId d;
          d = set_moderatedAt now d;
          d = (case reason of
                 None \<Rightarrow> d
               | Some r \<Rightarrow> if r \<noteq> [] then set_moderationReason r d else d)
      in save now d)"

definition orDefault :: "jsstring option \<Rightarrow> jsstring \<Rightarrow> jsstring" where
  \<comment> \<open>\<^verbatim>\<open>reason || dflt\<close>: an absent and an empty reason are both falsy\<close>
  "orDefault reason dflt = (case reason of None \<Rightarrow> dflt | Some r \<Rightarrow> if r \<noteq> [] then r else dflt)"

definition reject :: "date \<Rightarrow> oid \<Rightarrow> jsstring option \<Rightarrow> comment \<Rightarrow> comment" where
  "reject now moderatorId reason d =
     (let d = set_status Rejected d;
          d = set_moderatedBy moderatorId d;
          d = set_moderatedAt now d;
          d = set_moderationReason
                (orDefault reason (js ''Content violates community guidelines'')) d
      in save now d)"

definition markAsSpam :: "date \<Rightarrow> oid \<Rightarrow> jsstring option \<Rightarrow> comment \<Rightarrow> comment" where
  "markAsSpam now moderatorId reason d =
     (let d = set_status Spam d;
          d = set_moderatedBy moderatorId d;
          d = set_moderatedAt now d;
          d = set_moderationReason (orDefault reason (js ''Detected as spam'')) d
      in save now d)"


definition toggleLike :: "date \<Rightarrow> oid \<Rightarrow> comment \<Rightarrow> comment" where
  "toggleLike now uid d =
     (let existingLike = find (\<lambda>like. like_user like = uid) (likes d);
          d = (case existingLike of
                 Some _ \<Rightarrow> set_likes (filter (\<lambda>like. like_user like \<noteq> uid) (likes d)) d
               | None \<Rightarrow> push_likes \<lparr> like_user = uid, like_createdAt = now \<rparr> d)
      in save now d)"

subsection \<open>The query for the approved comments of a post\<close>

definition populateReplies :: "comment list \<Rightarrow> comment \<Rightarrow> comment \<times> comment list" where
  \<comment> \<open>\<^verbatim>\<open>populate({path: 'replies', match: {status: 'approved'}, options: {sort:
      {createdAt: 1}}})\<close>: the stored documents named by the reply ids that match, in the
      order of the sort\<close>
  "populateReplies coll c =
     (c, sort_key createdAt
           (filter (\<lambda>r. docId r \<in> set (replies c) \<and> status r = Approved) coll))"

definition findApprovedByPost :: "comment list \<Rightarrow> oid \<Rightarrow> (comment \<times> comment list) list" where
  \<comment> \<open>the collection is the list of the stored documents; an absent \<^verbatim>\<open>createdAt\<close>
      sorts below every date, as null does in the store; documents of equal
      \<^verbatim>\<open>createdAt\<close> come in an order the store does not fix\<close>
  "findApprovedByPost coll pid =
     map (populateReplies coll)
       (rev (sort_key createdAt
          (filter (\<lambda>c. postId c = pid \<and> status c = Approved \<and> parentComment c = None) coll)))"

subsection \<open>Sample submissions and the contents of the scenarios\<close>

definition sampleAuthor :: author where
  "sampleAuthor = \<lparr> name = js ''Ada'', email = js ''ada@example.org'', website = [], userId = None \<rparr>"

definition sampleSubmission :: "jsstring \<Rightarrow> submission" where
  "sampleSubmission c =
     \<lparr> sub_postId = 1, sub_author = sampleAuthor, sub_content = c, sub_parentComment = None,
       sub_ipAddress = js ''203.0.113.7'', sub_userAgent = js ''Mozilla/5.0'',
       sub_favoriteFlower = None, sub_mood = None \<rparr>"

definition heavyContent :: jsstring where
  "heavyContent = js ''VIAGRA CASINO LOTTERY PRIZE WINNER!!!!! http://A http://B http://C http://D http://E http://F''"

definition prizeContent :: jsstring where
  "prizeContent = js ''WIN A FREE PRIZE NOW CASINO WINNER''"

definition thresholdContent :: jsstring where
  "thresholdContent = js ''CASINO prize''"

definition belowContent :: jsstring where
  "belowContent = js ''casino prize!!!!!''"

definition blankLinesContent :: jsstring where
  "blankLinesContent = js ''first line'' @ [0x0A, 0x0A, 0x0A, 0x0A, 0x0A] @ js ''second line''"


definition plainContent :: jsstring where
  "plainContent = js ''hello there''"

definition storedComment :: comment where
  "storedComment = save 1 (newComment 1 (sampleSubmission plainContent))"

definition likedComment :: comment where
  "likedComment = toggleLike 3 7 storedComment"

definition spamComment :: comment where
  "spamComment = save 1 (newComment 2 (sampleSubmission heavyContent))"

definition sampleDoc :: "oid \<Rightarrow> oid \<Rightarrow> oid option \<Rightarrow> date \<Rightarrow> status \<Rightarrow> oid list \<Rightarrow> comment" where
  \<comment> \<open>a stored comment: submitted and saved at the given time, then given a status and
      reply ids\<close>
  "sampleDoc i pid parent t st rs =
     (save t (newComment i ((sampleSubmission plainContent)
                \<lparr>sub_postId := pid, sub_parentComment := parent\<rparr>)))
       \<lparr>status := st, replies := rs\<rparr>"

definition sampleCollection :: "comment list" where
  "sampleCollection =
     [sampleDoc 1 1 None 10 Approved [3, 4, 5],
      sampleDoc 2 1 None 15 Approved [],
      sampleDoc 3 1 (Some 1) 14 Approved [],
      sampleDoc 4 1 (Some 1) 12 Pending [],
      sampleDoc 5 1 (Some 1) 11 Approved [],
      sampleDoc 6 1 None 16 Pending [],
      sampleDoc 7 2 None 17 Approved []]"

section \<open>Properties\<close>

subsection \<open>What a save does to the fields the middleware reads and writes\<close>

lemma touch_fields [simp]:
  "content (touch p b d) = content d" "status (touch p b d) = status d"
  "spamScore (touch p b d) = spamScore d" "isNew (touch p b d) = isNew d"
  "isEdited (touch p b d) = isEdited d" "editedAt (touch p b d) = editedAt d"
  by (simp_all add: touch_def)

lemma timestampsPreSave_fields [simp]:
  "content (timestampsPreSave now d) = content d"
  "status (timestampsPreSave now d) = status d"
  "spamScore (timestampsPreSave now d) = spamScore d"
  "isNew (timestampsPreSave now d) = isNew d"
  "isEdited (timestampsPreSave now d) = isEdited d"
  "editedAt (timestampsPreSave now d) = editedAt d"
  "modifiedPaths (timestampsPreSave now d) = modifiedPaths d"
  by (simp_all add: timestampsPreSave_def Let_def)

lemma save_new_spamScore: "isNew d \<Longrightarrow> spamScore (save now d) = spamScoreOf (content d)"
  by (simp add: save_def preSave_def autoFlag_def set_spamScore_def set_status_def Let_def)

lemma save_new_status:
  "isNew d \<Longrightarrow> status (save now d) = (if 70 \<le> spamScoreOf (content d) then Spam else status d)"
  by (simp add: save_def preSave_def autoFlag_def set_spamScore_def set_status_def Let_def)

lemma save_old_spamScore: "\<not> isNew d \<Longrightarrow> spamScore (save now d) = spamScore d"
  by (simp add: save_def preSave_def set_editedAt_def set_isEdited_def Let_def)

lemma save_old_status: "\<not> isNew d \<Longrightarrow> status (save now d) = status d"
  by (simp add: save_def preSave_def set_editedAt_def set_isEdited_def Let_def)

lemma fold_words_ge:
  "s \<le> fold (\<lambda>word spamScore. if P word then spamScore + 25 else spamScore) ws (s::int)"
proof (induction ws arbitrary: s)
  case Nil
  show ?case by simp
next
  case (Cons w ws)
  have "s \<le> (if P w then s + 25 else s)" by simp
  also have "\<dots> \<le> fold (\<lambda>word spamScore. if P word then spamScore + 25 else spamScore) ws (if P w then s + 25 else s)"
    by (rule Cons.IH)
  finally show ?case by simp
qed

lemma rawSpamScore_nonneg: "0 \<le> rawSpamScore c"
proof -
  have l: "0 \<le> linkRule c 0" by (simp add: linkRule_def Let_def)
  have k: "linkRule c 0 \<le> capsRule c (linkRule c 0)" by (simp add: capsRule_def)
  have r: "capsRule c (linkRule c 0) \<le> repeatRule c (capsRule c (linkRule c 0))"
    by (simp add: repeatRule_def)
  have w: "repeatRule c (capsRule c (linkRule c 0)) \<le> rawSpamScore c"
    unfolding rawSpamScore_def wordRule_def Let_def by (rule fold_words_ge)
  from l k r w show ?thesis by linarith
qed

lemma spamScoreOf_range: "0 \<le> spamScoreOf c \<and> spamScoreOf c \<le> 100"
  using rawSpamScore_nonneg [of c] by (simp add: spamScoreOf_def)

lemmas scoring_defs = js_def rawSpamScore_def spamScoreOf_def wordRule_def repeatRule_def capsRule_def
  linkRule_def capsRatio_def isUpper_def isLineTerminator_def toLowerCase_def lowerUnit_def
  spamWords_def Let_def

lemmas trim_defs = trim_def isWhiteSpace_def isLineTerminator_def js_def

lemma content_newComment [simp]: "content (newComment i s) = trim (sub_content s)"
  "isNew (newComment i s)" "status (newComment i s) = Pending"
  by (simp_all add: newComment_def)

lemma sub_content_sample [simp]: "sub_content (sampleSubmission c) = c"
  by (simp add: sampleSubmission_def)

lemma save_state [simp]: "isNew (save now d) = False" "modifiedPaths (save now d) = {}"
  by (simp_all add: save_def)

lemma preSave_content [simp]: "content (preSave now d) = content d"
  by (simp add: preSave_def autoFlag_def set_spamScore_def set_status_def set_editedAt_def
      set_isEdited_def Let_def)

lemma save_content [simp]: "content (save now d) = content d"
  by (simp add: save_def)

lemma set_content_fields [simp]:
  "content (set_content v d) = trim v" "isNew (set_content v d) = isNew d"
  "spamScore (set_content v d) = spamScore d" "status (set_content v d) = status d"
  "modifiedPaths (set_content v d) =
     (if isNew d \<or> content d \<noteq> trim v then insert ''content'' (modifiedPaths d)
      else modifiedPaths d)"
  by (simp_all add: set_content_def touch_def)

subsection \<open>The score is clamped\<close>

text \<open>
  C1. Whatever the content of a new comment is (in particular for the contents of length
  3 to 1000 that pass validation), the first save stores an integer spam score between 0
  and 100 inclusive; when the raw total of the link, caps-ratio, repeated-character and
  denylist contributions exceeds 100 the stored score is 100.
\<close>

theorem spam_score_clamped:
  "isNew d \<Longrightarrow>
     0 \<le> spamScore (save now d) \<and> spamScore (save now d) \<le> 100
     \<and> (100 < rawSpamScore (content d) \<longrightarrow> spamScore (save now d) = 100)"
  using spamScoreOf_range [of "content d"]
  by (simp add: save_new_spamScore) (simp add: spamScoreOf_def)

theorem spam_score_clamped_witness:
  "isNew (newComment 1 (sampleSubmission heavyContent))
   \<and> rawSpamScore (content (newComment 1 (sampleSubmission heavyContent))) = 240
   \<and> spamScore (save 5 (newComment 1 (sampleSubmission heavyContent))) = 100"
proof -
  have t: "trim heavyContent = heavyContent"
    by (simp add: heavyContent_def trim_defs)
  have r: "rawSpamScore heavyContent = 240"
    by (simp add: heavyContent_def scoring_defs)
  show ?thesis
    using spam_score_clamped [of "newComment 1 (sampleSubmission heavyContent)" 5]
    by (simp add: t r)
qed

subsection \<open>The initial status\<close>

text \<open>
  C2. A new comment whose status is the schema default \<open>Pending\<close> is stored with status
  \<open>Spam\<close> when its clamped score is at least 70 and with status \<open>Pending\<close> when the score
  is below 70. The comparison of the middleware sends a score of 69 to \<open>Pending\<close> and a
  score of 70 to \<open>Spam\<close>.
\<close>

theorem initial_status_by_threshold:
  "isNew d \<Longrightarrow> status d = Pending \<Longrightarrow>
     status (save now d) = (if 70 \<le> spamScore (save now d) then Spam else Pending)
     \<and> status (autoFlag (d\<lparr>spamScore := 69\<rparr>)) = Pending
     \<and> status (autoFlag (d\<lparr>spamScore := 70\<rparr>)) = Spam"
  by (simp add: save_new_spamScore save_new_status autoFlag_def set_status_def)

theorem initial_status_by_threshold_witness:
  "isNew (newComment 1 (sampleSubmission thresholdContent))
   \<and> status (newComment 1 (sampleSubmission thresholdContent)) = Pending
   \<and> spamScore (save 5 (newComment 1 (sampleSubmission thresholdContent))) = 70
   \<and> status (save 5 (newComment 1 (sampleSubmission thresholdContent))) = Spam
   \<and> spamScore (save 5 (newComment 2 (sampleSubmission belowContent))) = 65
   \<and> status (save 5 (newComment 2 (sampleSubmission belowContent))) = Pending"
proof -
  have t: "trim thresholdContent = thresholdContent" "trim belowContent = belowContent"
    by (simp_all add: thresholdContent_def belowContent_def trim_defs)
  have r: "spamScoreOf thresholdContent = 70" "spamScoreOf belowContent = 65"
    by (simp_all add: thresholdContent_def belowContent_def scoring_defs)
  show ?thesis
    using initial_status_by_threshold [of "newComment 1 (sampleSubmission thresholdContent)" 5]
      initial_status_by_threshold [of "newComment 2 (sampleSubmission belowContent)" 5]
    by (simp add: save_new_spamScore t r)
qed

subsection \<open>Edits after creation\<close>

text \<open>
  C6. The score and the automatic spam status are assigned on the first save only: the
  save of an existing comment leaves \<open>spamScore\<close> and \<open>status\<close> as they are, and when
  its content was modified the save sets \<open>isEdited\<close> and stamps \<open>editedAt\<close> with the
  current time.
\<close>

theorem edit_keeps_score_and_status:
  "\<not> isNew d \<Longrightarrow>
     spamScore (save now d) = spamScore d \<and> status (save now d) = status d
     \<and> (''content'' \<in> modifiedPaths d \<longrightarrow>
          isEdited (save now d) \<and> editedAt (save now d) = Some now)"
  by (simp add: save_old_spamScore save_old_status)
    (simp add: save_def preSave_def set_editedAt_def set_isEdited_def touch_def Let_def)

theorem edit_keeps_score_and_status_witness:
  "\<not> isNew (set_content thresholdContent (save 1 (newComment 1 (sampleSubmission plainContent))))
   \<and> ''content'' \<in> modifiedPaths
        (set_content thresholdContent (save 1 (newComment 1 (sampleSubmission plainContent))))
   \<and> spamScoreOf (content
        (set_content thresholdContent (save 1 (newComment 1 (sampleSubmission plainContent))))) = 70
   \<and> spamScore (save 9
        (set_content thresholdContent (save 1 (newComment 1 (sampleSubmission plainContent))))) = 0
   \<and> status (save 9
        (set_content thresholdContent (save 1 (newComment 1 (sampleSubmission plainContent))))) = Pending
   \<and> isEdited (save 9
        (set_content thresholdContent (save 1 (newComment 1 (sampleSubmission plainContent)))))
   \<and> editedAt (save 9
        (set_content thresholdContent (save 1 (newComment 1 (sampleSubmission plainContent))))) = Some 9"
proof -
  have t: "trim thresholdContent = thresholdContent" "trim plainContent = plainContent"
    by (simp_all add: thresholdContent_def plainContent_def trim_defs)
  have ne: "plainContent \<noteq> thresholdContent"
    by (simp add: thresholdContent_def plainContent_def js_def)
  have r: "spamScoreOf thresholdContent = 70" "spamScoreOf plainContent = 0"
    by (simp_all add: thresholdContent_def plainContent_def scoring_defs)
  show ?thesis
    using edit_keeps_score_and_status
      [of "set_content thresholdContent (save 1 (newComment 1 (sampleSubmission plainContent)))" 9]
    by (simp add: t ne r save_new_spamScore save_new_status)
qed

subsection \<open>The link rule\<close>




subsection \<open>The prize scenario\<close>

text \<open>
  C8. For the content "WIN A FREE PRIZE NOW CASINO WINNER" the caps rule adds 20, the
  denylist terms found (case-insensitively) are "casino", "prize" and "winner", adding 25
  each for 75, and a new comment with this content is stored with score 95 and status
  \<open>Spam\<close>.
\<close>

theorem prize_scenario_scores_95:
  "linkRule prizeContent s = s
   \<and> capsRule prizeContent s = s + 20
   \<and> repeatRule prizeContent s = s
   \<and> filter (str_includes (toLowerCase prizeContent)) spamWords
       = [js ''casino'', js ''prize'', js ''winner'']
   \<and> wordRule prizeContent s = s + 75
   \<and> spamScore (save now (newComment i (sub\<lparr>sub_content := prizeContent\<rparr>))) = 95
   \<and> status (save now (newComment i (sub\<lparr>sub_content := prizeContent\<rparr>))) = Spam"
proof -
  have t: "trim prizeContent = prizeContent"
    by (simp add: prizeContent_def trim_defs)
  have c: "capsRule prizeContent s = s + 20"
    by (simp add: prizeContent_def js_def capsRule_def capsRatio_def isUpper_def)
  have f: "filter (str_includes (toLowerCase prizeContent)) spamWords
       = [js ''casino'', js ''prize'', js ''winner'']"
    by (simp add: prizeContent_def js_def spamWords_def toLowerCase_def lowerUnit_def isUpper_def)
  have w: "wordRule prizeContent s = s + 75"
    by (simp add: prizeContent_def js_def wordRule_def spamWords_def toLowerCase_def lowerUnit_def
        isUpper_def)
  have l: "linkRule prizeContent s = s"
    by (simp add: prizeContent_def js_def linkRule_def)
  have h: "repeatRule prizeContent s = s"
    by (simp add: prizeContent_def js_def repeatRule_def isLineTerminator_def)
  have r: "spamScoreOf prizeContent = 95"
    by (simp add: prizeContent_def scoring_defs)
  show ?thesis
    by (simp add: l c h f w t r save_new_spamScore save_new_status)
qed

subsection \<open>The repeated-character rule\<close>

lemma hasRepeat_iff:
  "hasRepeat c \<longleftrightarrow> (\<exists>pre u post. \<not> isLineTerminator u \<and> c = pre @ replicate 5 u @ post)"
proof (induction c)
  case Nil
  show ?case by simp
next
  case (Cons x xs)
  show ?case
  proof
    assume "hasRepeat (x # xs)"
    then consider (here) "\<not> isLineTerminator x" "take 4 xs = [x, x, x, x]" | (later) "hasRepeat xs"
      by auto
    then show "\<exists>pre u post. \<not> isLineTerminator u \<and> x # xs = pre @ replicate 5 u @ post"
    proof cases
      case here
      have "xs = take 4 xs @ drop 4 xs" by simp
      with here(2) have "x # xs = [] @ replicate 5 x @ drop 4 xs"
        by (simp add: numeral_eq_Suc)
      with here(1) show ?thesis by blast
    next
      case later
      with Cons.IH obtain pre u post where "\<not> isLineTerminator u" "xs = pre @ replicate 5 u @ post"
        by blast
      then have "x # xs = (x # pre) @ replicate 5 u @ post" by simp
      with \<open>\<not> isLineTerminator u\<close> show ?thesis by blast
    qed
  next
    assume "\<exists>pre u post. \<not> isLineTerminator u \<and> x # xs = pre @ replicate 5 u @ post"
    then obtain pre u post where u: "\<not> isLineTerminator u" and eq: "x # xs = pre @ replicate 5 u @ post"
      by blast
    show "hasRepeat (x # xs)"
    proof (cases pre)
      case Nil
      with eq have "x = u" "xs = replicate 4 u @ post"
        by (simp_all add: numeral_eq_Suc)
      with u show ?thesis by (simp add: numeral_eq_Suc)
    next
      case (Cons p ps)
      with eq have "xs = ps @ replicate 5 u @ post" by simp
      with u Cons.IH have "hasRepeat xs" by blast
      then show ?thesis by simp
    qed
  qed
qed

lemma anyRunOfFive_iff:
  "anyRunOfFive c \<longleftrightarrow> (\<exists>pre u post. c = pre @ replicate 5 u @ post)"
proof (induction c)
  case Nil
  show ?case by simp
next
  case (Cons x xs)
  show ?case
  proof
    assume "anyRunOfFive (x # xs)"
    then consider (here) "take 4 xs = [x, x, x, x]" | (later) "anyRunOfFive xs"
      by auto
    then show "\<exists>pre u post. x # xs = pre @ replicate 5 u @ post"
    proof cases
      case here
      have "xs = take 4 xs @ drop 4 xs" by simp
      with here have "x # xs = [] @ replicate 5 x @ drop 4 xs"
        by (simp add: numeral_eq_Suc)
      then show ?thesis by blast
    next
      case later
      with Cons.IH obtain pre u post where "xs = pre @ replicate 5 u @ post"
        by blast
      then have "x # xs = (x # pre) @ replicate 5 u @ post" by simp
      then show ?thesis by blast
    qed
  next
    assume "\<exists>pre u post. x # xs = pre @ replicate 5 u @ post"
    then obtain pre u post where eq: "x # xs = pre @ replicate 5 u @ post"
      by blast
    show "anyRunOfFive (x # xs)"
    proof (cases pre)
      case Nil
      with eq have "x = u" "xs = replicate 4 u @ post"
        by (simp_all add: numeral_eq_Suc)
      then show ?thesis by (simp add: numeral_eq_Suc)
    next
      case (Cons p ps)
      with eq have "xs = ps @ replicate 5 u @ post" by simp
      with Cons.IH have "anyRunOfFive xs" by blast
      then show ?thesis by simp
    qed
  qed
qed

text \<open>
  C9, as the code has it. The repeated-character rule adds 15 exactly when the content
  holds five consecutive copies of one UTF-16 code unit that is not a line terminator
  (LF, CR, U+2028, U+2029), and adds nothing otherwise. A run of line terminators does
  not count: the content of \<open>blankLinesContent\<close> has five line feeds in a row and gets
  nothing from the rule.
\<close>

theorem repeat_rule_contribution:
  "repeatRule c s =
     s + (if (\<exists>pre u post. \<not> isLineTerminator u \<and> c = pre @ replicate 5 u @ post) then 15 else 0)"
  by (simp add: repeatRule_def hasRepeat_iff)

theorem repeat_rule_contribution_witness:
  "(\<exists>pre u post. \<not> isLineTerminator u \<and> belowContent = pre @ replicate 5 u @ post)
   \<and> repeatRule belowContent 0 = 15
   \<and> \<not> (\<exists>pre u post. \<not> isLineTerminator u \<and> plainContent = pre @ replicate 5 u @ post)
   \<and> repeatRule plainContent 0 = 0"
proof -
  have "belowContent = js ''casino prize'' @ replicate 5 0x21 @ []"
    by (simp add: belowContent_def js_def numeral_eq_Suc)
  moreover have "\<not> isLineTerminator 0x21"
    by (simp add: isLineTerminator_def)
  ultimately have yes: "\<exists>pre u post. \<not> isLineTerminator u \<and> belowContent = pre @ replicate 5 u @ post"
    by blast
  have "\<not> hasRepeat plainContent"
    by (simp add: plainContent_def js_def isLineTerminator_def)
  then have no: "\<not> (\<exists>pre u post. \<not> isLineTerminator u \<and> plainContent = pre @ replicate 5 u @ post)"
    by (simp add: hasRepeat_iff)
  show ?thesis
    using repeat_rule_contribution [of belowContent 0] repeat_rule_contribution [of plainContent 0]
      yes no
    by simp
qed

theorem repeat_rule_counterexample:
  "anyRunOfFive blankLinesContent \<and> repeatRule blankLinesContent 0 = 0
   \<and> content (newComment 1 (sampleSubmission blankLinesContent)) = blankLinesContent
   \<and> spamScore (save 5 (newComment 1 (sampleSubmission blankLinesContent))) = 0"
proof -
  have t: "trim blankLinesContent = blankLinesContent"
    by (simp add: blankLinesContent_def trim_defs)
  have a: "anyRunOfFive blankLinesContent"
    by (simp add: blankLinesContent_def js_def)
  have r: "repeatRule blankLinesContent 0 = 0"
    by (simp add: blankLinesContent_def js_def repeatRule_def isLineTerminator_def)
  have z: "spamScoreOf blankLinesContent = 0"
    by (simp add: blankLinesContent_def scoring_defs)
  show ?thesis
    by (simp add: t a r z save_new_spamScore)
qed

subsection \<open>Replies\<close>

lemma touch_lists [simp]:
  "replies (touch p b d) = replies d" "likes (touch p b d) = likes d"
  by (simp_all add: touch_def)

lemma save_lists [simp]: "replies (save now d) = replies d" "likes (save now d) = likes d"
  by (simp_all add: save_def preSave_def timestampsPreSave_def autoFlag_def set_spamScore_def
      set_status_def set_editedAt_def set_isEdited_def Let_def)





subsection \<open>Likes\<close>

lemma likes_toggleLike:
  "likes (toggleLike now u d) =
     (if u \<in> like_user ` set (likes d) then filter (\<lambda>like. like_user like \<noteq> u) (likes d)
      else likes d @ [\<lparr> like_user = u, like_createdAt = now \<rparr>])"
proof (cases "find (\<lambda>like. like_user like = u) (likes d)")
  case None
  then have "u \<notin> like_user ` set (likes d)"
    by (auto simp: find_None_iff)
  with None show ?thesis
    by (simp add: toggleLike_def push_likes_def Let_def)
next
  case (Some l)
  then have "u \<in> like_user ` set (likes d)"
    by (auto simp: find_Some_iff)
  with Some show ?thesis
    by (simp add: toggleLike_def set_likes_def Let_def)
qed

lemma filter_other_id: "u \<notin> like_user ` set ls \<Longrightarrow> filter (\<lambda>like. like_user like \<noteq> u) ls = ls"
  by (induction ls) auto

text \<open>
  C4, as the code has it. The first \<open>toggleLike\<close> removes every like entry of the
  user when there is one and appends a new entry, stamped with the time of the call,
  otherwise. After two calls with the same user id the set of users who like the
  comment is what it was. When the user had no entry the list of likes is restored
  exactly; when the user had one, the entries of the other users are kept in their
  order and the user's entry is created anew at the end, with the time of the second
  call as its \<open>createdAt\<close>.
\<close>

theorem toggleLike_twice:
  "(u \<notin> like_user ` set (likes d) \<longrightarrow>
      likes (toggleLike now u d) = likes d @ [\<lparr> like_user = u, like_createdAt = now \<rparr>]
      \<and> likes (toggleLike now' u (toggleLike now u d)) = likes d)
   \<and> (u \<in> like_user ` set (likes d) \<longrightarrow>
      likes (toggleLike now u d) = filter (\<lambda>like. like_user like \<noteq> u) (likes d)
      \<and> likes (toggleLike now' u (toggleLike now u d))
          = filter (\<lambda>like. like_user like \<noteq> u) (likes d) @ [\<lparr> like_user = u, like_createdAt = now' \<rparr>])
   \<and> like_user ` set (likes (toggleLike now' u (toggleLike now u d))) = like_user ` set (likes d)"
proof (cases "u \<in> like_user ` set (likes d)")
  case True
  then show ?thesis by (auto simp: likes_toggleLike)
next
  case False
  then show ?thesis by (simp add: likes_toggleLike filter_other_id)
qed

theorem toggleLike_twice_witness:
  "7 \<notin> like_user ` set (likes storedComment)
   \<and> likes (toggleLike 3 7 storedComment) = [\<lparr> like_user = 7, like_createdAt = 3 \<rparr>]
   \<and> likes (toggleLike 4 7 (toggleLike 3 7 storedComment)) = []
   \<and> 7 \<in> like_user ` set (likes likedComment)
   \<and> likes (toggleLike 8 7 likedComment) = []
   \<and> like_user ` set (likes (toggleLike 9 7 (toggleLike 8 7 likedComment))) = {7}"
proof -
  have s: "likes storedComment = []"
    by (simp add: storedComment_def newComment_def)
  have l: "likes likedComment = [\<lparr> like_user = 7, like_createdAt = 3 \<rparr>]"
    by (simp add: likedComment_def likes_toggleLike s)
  show ?thesis
    using toggleLike_twice [of 7 storedComment 3 4] toggleLike_twice [of 7 likedComment 8 9]
    by (simp add: s l)
qed

theorem toggleLike_twice_counterexample:
  "likes likedComment = [\<lparr> like_user = 7, like_createdAt = 3 \<rparr>]
   \<and> likes (toggleLike 9 7 (toggleLike 8 7 likedComment)) = [\<lparr> like_user = 7, like_createdAt = 9 \<rparr>]
   \<and> likes (toggleLike 9 7 (toggleLike 8 7 likedComment)) \<noteq> likes likedComment"
proof -
  have s: "likes storedComment = []"
    by (simp add: storedComment_def newComment_def)
  have l: "likes likedComment = [\<lparr> like_user = 7, like_createdAt = 3 \<rparr>]"
    by (simp add: likedComment_def likes_toggleLike s)
  show ?thesis
    by (simp add: likes_toggleLike l)
qed

subsection \<open>Moderation\<close>

lemma touch_frame: "touch p b d = d\<lparr>modifiedPaths := modifiedPaths (touch p b d)\<rparr>"
  by (simp add: touch_def)

lemma touch_content:
  "p \<noteq> ''content'' \<Longrightarrow> ''content'' \<in> modifiedPaths (touch p b d) \<longleftrightarrow> ''content'' \<in> modifiedPaths d"
  by (auto simp: touch_def)

lemma set_status_frame:
  "set_status v d = d\<lparr>status := v, modifiedPaths := modifiedPaths (set_status v d)\<rparr>"
  by (simp add: set_status_def touch_def)

lemma set_status_state:
  "isNew (set_status v d) = isNew d"
  "''content'' \<in> modifiedPaths (set_status v d) \<longleftrightarrow> ''content'' \<in> modifiedPaths d"
  by (simp_all add: set_status_def touch_content)

lemma set_moderatedBy_frame:
  "set_moderatedBy v d = d\<lparr>moderatedBy := Some v, modifiedPaths := modifiedPaths (set_moderatedBy v d)\<rparr>"
  by (simp add: set_moderatedBy_def touch_def)

lemma set_moderatedBy_state:
  "isNew (set_moderatedBy v d) = isNew d"
  "''content'' \<in> modifiedPaths (set_moderatedBy v d) \<longleftrightarrow> ''content'' \<in> modifiedPaths d"
  by (simp_all add: set_moderatedBy_def touch_content)

lemma set_moderatedAt_frame:
  "set_moderatedAt v d = d\<lparr>moderatedAt := Some v, modifiedPaths := modifiedPaths (set_moderatedAt v d)\<rparr>"
  by (simp add: set_moderatedAt_def touch_def)

lemma set_moderatedAt_state:
  "isNew (set_moderatedAt v d) = isNew d"
  "''content'' \<in> modifiedPaths (set_moderatedAt v d) \<longleftrightarrow> ''content'' \<in> modifiedPaths d"
  by (simp_all add: set_moderatedAt_def touch_content)

lemma set_moderationReason_frame:
  "set_moderationReason v d = d\<lparr>moderationReason := Some (trim v), modifiedPaths := modifiedPaths (set_moderationReason v d)\<rparr>"
  by (simp add: set_moderationReason_def touch_def)

lemma set_moderationReason_state:
  "isNew (set_moderationReason v d) = isNew d"
  "''content'' \<in> modifiedPaths (set_moderationReason v d) \<longleftrightarrow> ''content'' \<in> modifiedPaths d"
  by (simp_all add: set_moderationReason_def touch_content)

lemma timestampsPreSave_old:
  "\<not> isNew d \<Longrightarrow> timestampsPreSave now d = d\<lparr>updatedAt := updatedAt (timestampsPreSave now d)\<rparr>"
  by (simp add: timestampsPreSave_def Let_def)

lemma preSave_old:
  "\<not> isNew d \<Longrightarrow> ''content'' \<notin> modifiedPaths d \<Longrightarrow> preSave now d = d"
  by (simp add: preSave_def)

lemma isNew_False_id: "\<not> isNew d \<Longrightarrow> d\<lparr>isNew := False\<rparr> = d"
  by (cases d) simp

lemma save_frame:
  assumes "\<not> isNew d" "''content'' \<notin> modifiedPaths d"
  shows "save now d = d\<lparr>updatedAt := updatedAt (save now d), modifiedPaths := {}\<rparr>"
proof -
  have p: "preSave now (timestampsPreSave now d) = timestampsPreSave now d"
    using assms by (simp add: preSave_old)
  have s: "save now d = (timestampsPreSave now d)\<lparr>isNew := False, modifiedPaths := {}\<rparr>"
    by (simp add: save_def p)
  have u: "updatedAt (timestampsPreSave now d) = updatedAt (save now d)"
    by (simp add: s)
  have "save now d = (timestampsPreSave now d)\<lparr>isNew := False, modifiedPaths := {}\<rparr>"
    by (rule s)
  also have "\<dots> = (d\<lparr>updatedAt := updatedAt (timestampsPreSave now d)\<rparr>)
                      \<lparr>isNew := False, modifiedPaths := {}\<rparr>"
    by (subst timestampsPreSave_old [OF assms(1)]) (rule refl)
  also have "\<dots> = (d\<lparr>isNew := False\<rparr>)
                      \<lparr>updatedAt := updatedAt (timestampsPreSave now d), modifiedPaths := {}\<rparr>"
    by simp
  also have "\<dots> = d\<lparr>updatedAt := updatedAt (save now d), modifiedPaths := {}\<rparr>"
    by (simp only: isNew_False_id [OF assms(1)] u)
  finally show ?thesis .
qed

lemma moderate_frame:
  assumes "\<not> isNew d" "''content'' \<notin> modifiedPaths d"
  shows "set_moderatedAt now (set_moderatedBy m (set_status st d)) =
           d\<lparr>status := st, moderatedBy := Some m, moderatedAt := Some now,
             modifiedPaths := modifiedPaths (set_moderatedAt now (set_moderatedBy m (set_status st d)))\<rparr>"
    and "\<not> isNew (set_moderatedAt now (set_moderatedBy m (set_status st d)))"
    and "''content'' \<notin> modifiedPaths (set_moderatedAt now (set_moderatedBy m (set_status st d)))"
proof -
  define D1 where "D1 = set_status st d"
  define D2 where "D2 = set_moderatedBy m D1"
  define D3 where "D3 = set_moderatedAt now D2"
  have e1: "D1 = d\<lparr>status := st, modifiedPaths := modifiedPaths D1\<rparr>"
    unfolding D1_def by (rule set_status_frame)
  have e2: "D2 = D1\<lparr>moderatedBy := Some m, modifiedPaths := modifiedPaths D2\<rparr>"
    unfolding D2_def by (rule set_moderatedBy_frame)
  have e3: "D3 = D2\<lparr>moderatedAt := Some now, modifiedPaths := modifiedPaths D3\<rparr>"
    unfolding D3_def by (rule set_moderatedAt_frame)
  have "D3 = ((d\<lparr>status := st, modifiedPaths := modifiedPaths D1\<rparr>)
              \<lparr>moderatedBy := Some m, modifiedPaths := modifiedPaths D2\<rparr>)
              \<lparr>moderatedAt := Some now, modifiedPaths := modifiedPaths D3\<rparr>"
    by (subst e3, subst e2, subst e1) (rule refl)
  also have "\<dots> = d\<lparr>status := st, moderatedBy := Some m, moderatedAt := Some now,
                       modifiedPaths := modifiedPaths D3\<rparr>"
    by simp
  finally show "set_moderatedAt now (set_moderatedBy m (set_status st d)) =
           d\<lparr>status := st, moderatedBy := Some m, moderatedAt := Some now,
             modifiedPaths := modifiedPaths (set_moderatedAt now (set_moderatedBy m (set_status st d)))\<rparr>"
    unfolding D3_def D2_def D1_def .
  show "\<not> isNew (set_moderatedAt now (set_moderatedBy m (set_status st d)))"
    using assms(1) by (simp add: set_moderatedAt_state set_moderatedBy_state set_status_state)
  show "''content'' \<notin> modifiedPaths (set_moderatedAt now (set_moderatedBy m (set_status st d)))"
    using assms(2) by (simp add: set_moderatedAt_state set_moderatedBy_state set_status_state)
qed

lemma moderation_without_reason:
  assumes "\<not> isNew d" "''content'' \<notin> modifiedPaths d"
  shows "save now (set_moderatedAt now (set_moderatedBy m (set_status st d))) =
           d\<lparr>status := st, moderatedBy := Some m, moderatedAt := Some now,
             updatedAt := updatedAt (save now (set_moderatedAt now (set_moderatedBy m (set_status st d)))),
             modifiedPaths := {}\<rparr>"
proof -
  define D where "D = set_moderatedAt now (set_moderatedBy m (set_status st d))"
  have e: "D = d\<lparr>status := st, moderatedBy := Some m, moderatedAt := Some now,
                   modifiedPaths := modifiedPaths D\<rparr>"
    and n: "\<not> isNew D" and c: "''content'' \<notin> modifiedPaths D"
    unfolding D_def by (rule moderate_frame [OF assms])+
  have "save now D = D\<lparr>updatedAt := updatedAt (save now D), modifiedPaths := {}\<rparr>"
    by (rule save_frame [OF n c])
  also have "\<dots> = (d\<lparr>status := st, moderatedBy := Some m, moderatedAt := Some now,
                        modifiedPaths := modifiedPaths D\<rparr>)
                      \<lparr>updatedAt := updatedAt (save now D), modifiedPaths := {}\<rparr>"
    by (subst e) (rule refl)
  also have "\<dots> = d\<lparr>status := st, moderatedBy := Some m, moderatedAt := Some now,
                       updatedAt := updatedAt (save now D), modifiedPaths := {}\<rparr>"
    by simp
  finally show ?thesis unfolding D_def .
qed

lemma moderation_with_reason:
  assumes "\<not> isNew d" "''content'' \<notin> modifiedPaths d"
  shows "save now (set_moderationReason x (set_moderatedAt now (set_moderatedBy m (set_status st d)))) =
           d\<lparr>status := st, moderatedBy := Some m, moderatedAt := Some now,
             moderationReason := Some (trim x),
             updatedAt := updatedAt (save now
               (set_moderationReason x (set_moderatedAt now (set_moderatedBy m (set_status st d))))),
             modifiedPaths := {}\<rparr>"
proof -
  define D where "D = set_moderatedAt now (set_moderatedBy m (set_status st d))"
  define E where "E = set_moderationReason x D"
  have e: "D = d\<lparr>status := st, moderatedBy := Some m, moderatedAt := Some now,
                   modifiedPaths := modifiedPaths D\<rparr>"
    and n: "\<not> isNew D" and c: "''content'' \<notin> modifiedPaths D"
    unfolding D_def by (rule moderate_frame [OF assms])+
  have f: "E = D\<lparr>moderationReason := Some (trim x), modifiedPaths := modifiedPaths E\<rparr>"
    unfolding E_def by (rule set_moderationReason_frame)
  have n': "\<not> isNew E" and c': "''content'' \<notin> modifiedPaths E"
    using n c by (simp_all add: E_def set_moderationReason_state)
  have "save now E = E\<lparr>updatedAt := updatedAt (save now E), modifiedPaths := {}\<rparr>"
    by (rule save_frame [OF n' c'])
  also have "\<dots> = ((d\<lparr>status := st, moderatedBy := Some m, moderatedAt := Some now,
                        modifiedPaths := modifiedPaths D\<rparr>)
                       \<lparr>moderationReason := Some (trim x), modifiedPaths := modifiedPaths E\<rparr>)
                      \<lparr>updatedAt := updatedAt (save now E), modifiedPaths := {}\<rparr>"
    by (subst f, subst e) (rule refl)
  also have "\<dots> = d\<lparr>status := st, moderatedBy := Some m, moderatedAt := Some now,
                       moderationReason := Some (trim x),
                       updatedAt := updatedAt (save now E), modifiedPaths := {}\<rparr>"
    by simp
  finally show ?thesis unfolding E_def D_def .
qed

lemma trim_defaults:
  "trim (js ''Content violates community guidelines'') = js ''Content violates community guidelines''"
  "trim (js ''Detected as spam'') = js ''Detected as spam''"
  by (simp_all add: trim_defs)

lemma spamComment_fields:
  "isNew spamComment = False" "modifiedPaths spamComment = {}" "status spamComment = Spam"
  "spamScore spamComment = 100" "updatedAt spamComment = Some 1" "moderationReason spamComment = None"
proof -
  have t: "trim heavyContent = heavyContent"
    by (simp add: heavyContent_def trim_defs)
  have r: "spamScoreOf heavyContent = 100"
    by (simp add: heavyContent_def scoring_defs)
  show "isNew spamComment = False" "modifiedPaths spamComment = {}"
    by (simp_all add: spamComment_def)
  show "status spamComment = Spam" "spamScore spamComment = 100"
    by (simp_all add: spamComment_def save_new_status save_new_spamScore t r)
  show "updatedAt spamComment = Some 1" "moderationReason spamComment = None"
    by (simp_all add: spamComment_def save_def preSave_def autoFlag_def set_spamScore_def set_status_def
        touch_def timestampsPreSave_def newComment_def Let_def)
qed

text \<open>
  C3, as the code has it. On a stored comment (not new, its content not modified since it
  was loaded), whatever its status, \<open>approve\<close>, \<open>reject\<close> and \<open>markAsSpam\<close> set the status
  to \<open>Approved\<close>, \<open>Rejected\<close> and \<open>Spam\<close>, overwrite \<open>moderatedBy\<close> with the moderator id and
  \<open>moderatedAt\<close> with the current time, and store the trimmed reason when one is given.
  Without a reason \<open>reject\<close> stores "Content violates community guidelines",
  \<open>markAsSpam\<close> stores "Detected as spam" and \<open>approve\<close> leaves the reason as it was.
  The result is the comment with these four fields overwritten and with the \<open>updatedAt\<close>
  of the save: every other field, among them content, spamScore, likes and replies, is
  unchanged.
\<close>

theorem moderation_transitions:
  assumes old: "\<not> isNew d" and unedited: "''content'' \<notin> modifiedPaths d"
  shows
    "approve now m reason d =
       d\<lparr>status := Approved, moderatedBy := Some m, moderatedAt := Some now,
         moderationReason :=
           (case reason of None \<Rightarrow> moderationReason d
            | Some r \<Rightarrow> if r \<noteq> [] then Some (trim r) else moderationReason d),
         updatedAt := updatedAt (approve now m reason d), modifiedPaths := {}\<rparr>
     \<and> reject now m reason d =
       d\<lparr>status := Rejected, moderatedBy := Some m, moderatedAt := Some now,
         moderationReason :=
           Some (trim (orDefault reason (js ''Content violates community guidelines''))),
         updatedAt := updatedAt (reject now m reason d), modifiedPaths := {}\<rparr>
     \<and> markAsSpam now m reason d =
       d\<lparr>status := Spam, moderatedBy := Some m, moderatedAt := Some now,
         moderationReason := Some (trim (orDefault reason (js ''Detected as spam''))),
         updatedAt := updatedAt (markAsSpam now m reason d), modifiedPaths := {}\<rparr>
     \<and> moderationReason (approve now m None d) = moderationReason d
     \<and> moderationReason (reject now m None d) = Some (js ''Content violates community guidelines'')
     \<and> moderationReason (markAsSpam now m None d) = Some (js ''Detected as spam'')"
proof -
  have a: "approve now m reason d =
       d\<lparr>status := Approved, moderatedBy := Some m, moderatedAt := Some now,
         moderationReason :=
           (case reason of None \<Rightarrow> moderationReason d
            | Some r \<Rightarrow> if r \<noteq> [] then Some (trim r) else moderationReason d),
         updatedAt := updatedAt (approve now m reason d), modifiedPaths := {}\<rparr>"
  proof (cases "\<exists>r. reason = Some r \<and> r \<noteq> []")
    case True
    then obtain r where r: "reason = Some r" "r \<noteq> []" by blast
    have "approve now m reason d =
            save now (set_moderationReason r (set_moderatedAt now (set_moderatedBy m (set_status Approved d))))"
      by (simp add: approve_def r Let_def)
    then show ?thesis
      using moderation_with_reason [OF old unedited, of now r m Approved]
      by (simp only: r option.case if_True not_False_eq_True)
  next
    case False
    then have k: "(case reason of None \<Rightarrow> moderationReason d
            | Some r \<Rightarrow> if r \<noteq> [] then Some (trim r) else moderationReason d) = moderationReason d"
      by (cases reason) auto
    have u: "approve now m reason d =
            save now (set_moderatedAt now (set_moderatedBy m (set_status Approved d)))"
      using False by (cases reason) (auto simp: approve_def Let_def)
    have "d\<lparr>status := Approved, moderatedBy := Some m, moderatedAt := Some now,
         moderationReason := moderationReason d,
         updatedAt := updatedAt (approve now m reason d), modifiedPaths := {}\<rparr>
       = d\<lparr>status := Approved, moderatedBy := Some m, moderatedAt := Some now,
         updatedAt := updatedAt (approve now m reason d), modifiedPaths := {}\<rparr>"
      by simp
    then show ?thesis
      using moderation_without_reason [OF old unedited, of now m Approved]
      by (simp only: k u)
  qed
  have r: "reject now m reason d =
       d\<lparr>status := Rejected, moderatedBy := Some m, moderatedAt := Some now,
         moderationReason :=
           Some (trim (orDefault reason (js ''Content violates community guidelines''))),
         updatedAt := updatedAt (reject now m reason d), modifiedPaths := {}\<rparr>" for reason
    unfolding reject_def Let_def by (rule moderation_with_reason [OF old unedited])
  have s: "markAsSpam now m reason d =
       d\<lparr>status := Spam, moderatedBy := Some m, moderatedAt := Some now,
         moderationReason := Some (trim (orDefault reason (js ''Detected as spam''))),
         updatedAt := updatedAt (markAsSpam now m reason d), modifiedPaths := {}\<rparr>" for reason
    unfolding markAsSpam_def Let_def by (rule moderation_with_reason [OF old unedited])
  have "moderationReason (save now (set_moderatedAt now (set_moderatedBy m (set_status Approved d)))) =
        moderationReason (d\<lparr>status := Approved, moderatedBy := Some m, moderatedAt := Some now,
             updatedAt := updatedAt (save now (set_moderatedAt now (set_moderatedBy m (set_status Approved d)))),
             modifiedPaths := {}\<rparr>)"
    using moderation_without_reason [OF old unedited, of now m Approved] by (rule arg_cong)
  then have a0: "moderationReason (approve now m None d) = moderationReason d"
    by (simp add: approve_def Let_def)
  have r0: "moderationReason (reject now m None d) = Some (js ''Content violates community guidelines'')"
    by (subst r) (simp add: orDefault_def trim_defaults)
  have s0: "moderationReason (markAsSpam now m None d) = Some (js ''Detected as spam'')"
    by (subst s) (simp add: orDefault_def trim_defaults)
  from a r s a0 r0 s0 show ?thesis by blast
qed

theorem moderation_transitions_witness:
  "\<not> isNew spamComment \<and> ''content'' \<notin> modifiedPaths spamComment \<and> status spamComment = Spam
   \<and> status (approve 9 42 None spamComment) = Approved
   \<and> moderatedBy (approve 9 42 None spamComment) = Some 42
   \<and> moderatedAt (approve 9 42 None spamComment) = Some 9
   \<and> moderationReason (approve 9 42 None spamComment) = None
   \<and> spamScore (approve 9 42 None spamComment) = 100
   \<and> status (reject 9 42 None spamComment) = Rejected
   \<and> moderationReason (reject 9 42 None spamComment) = Some (js ''Content violates community guidelines'')
   \<and> moderationReason (markAsSpam 9 42 None spamComment) = Some (js ''Detected as spam'')"
proof -
  have h: "\<not> isNew spamComment" "''content'' \<notin> modifiedPaths spamComment"
    by (simp_all add: spamComment_fields)
  note m = moderation_transitions [OF h, of 9 42 None]
  from m have a: "approve 9 42 None spamComment =
       spamComment\<lparr>status := Approved, moderatedBy := Some 42, moderatedAt := Some 9,
         moderationReason := (case None of None \<Rightarrow> moderationReason spamComment
            | Some r \<Rightarrow> if r \<noteq> [] then Some (trim r) else moderationReason spamComment),
         updatedAt := updatedAt (approve 9 42 None spamComment), modifiedPaths := {}\<rparr>"
    by (rule conjunct1)
  from m have r: "reject 9 42 None spamComment =
       spamComment\<lparr>status := Rejected, moderatedBy := Some 42, moderatedAt := Some 9,
         moderationReason :=
           Some (trim (orDefault None (js ''Content violates community guidelines''))),
         updatedAt := updatedAt (reject 9 42 None spamComment), modifiedPaths := {}\<rparr>"
    by blast
  from m have d: "moderationReason (reject 9 42 None spamComment) = Some (js ''Content violates community guidelines'')"
    "moderationReason (markAsSpam 9 42 None spamComment) = Some (js ''Detected as spam'')"
    by blast+
  have a1: "status (approve 9 42 None spamComment) = Approved"
    "moderatedBy (approve 9 42 None spamComment) = Some 42"
    "moderatedAt (approve 9 42 None spamComment) = Some 9"
    "moderationReason (approve 9 42 None spamComment) = None"
    "spamScore (approve 9 42 None spamComment) = 100"
    by (subst a, simp add: spamComment_fields)+
  have r1: "status (reject 9 42 None spamComment) = Rejected"
    by (subst r) simp
  from h a1 r1 d show ?thesis
    by (simp add: spamComment_fields)
qed

theorem moderation_transitions_counterexample:
  "status spamComment = Spam \<and> updatedAt spamComment = Some 1
   \<and> status (approve 9 42 None spamComment) = Approved
   \<and> updatedAt (approve 9 42 None spamComment) = Some 9
   \<and> status (approve 9 42 None (newComment 2 (sampleSubmission heavyContent))) = Spam"
proof -
  have t: "trim heavyContent = heavyContent"
    by (simp add: heavyContent_def trim_defs)
  have r: "spamScoreOf heavyContent = 100"
    by (simp add: heavyContent_def scoring_defs)
  have x: "isNew (set_moderatedAt 9 (set_moderatedBy 42 (set_status Approved spamComment))) = False"
    by (simp add: set_moderatedAt_state set_moderatedBy_state set_status_state spamComment_fields)
  have m: "modifiedPaths (set_moderatedAt 9 (set_moderatedBy 42 (set_status Approved spamComment))) \<noteq> {}"
    by (simp add: set_moderatedAt_def set_moderatedBy_def set_status_def touch_def spamComment_fields)
  have s: "status (set_moderatedAt 9 (set_moderatedBy 42 (set_status Approved spamComment))) = Approved"
    by (simp add: set_moderatedAt_def set_moderatedBy_def set_status_def)
  have a: "status (approve 9 42 None spamComment) = Approved"
    by (simp add: approve_def Let_def save_old_status x s)
  have u: "updatedAt (approve 9 42 None spamComment) = Some 9"
    using x m by (simp add: approve_def Let_def save_def preSave_def timestampsPreSave_def
        set_editedAt_def set_isEdited_def touch_def)
  have n: "isNew (set_moderatedAt 9 (set_moderatedBy 42 (set_status Approved
             (newComment 2 (sampleSubmission heavyContent)))))"
    by (simp add: set_moderatedAt_state set_moderatedBy_state set_status_state)
  have c: "content (set_moderatedAt 9 (set_moderatedBy 42 (set_status Approved
             (newComment 2 (sampleSubmission heavyContent))))) = heavyContent"
    by (simp add: set_moderatedAt_def set_moderatedBy_def set_status_def t)
  have b: "status (approve 9 42 None (newComment 2 (sampleSubmission heavyContent))) = Spam"
    by (simp add: approve_def Let_def save_new_status n c r)
  from a u b show ?thesis
    by (simp add: spamComment_fields)
qed

subsection \<open>The approved comments of a post\<close>

lemma fst_populateReplies [simp]: "fst (populateReplies coll c) = c"
  by (simp add: populateReplies_def)

lemma map_fst_find:
  "map fst (findApprovedByPost coll pid) =
     rev (sort_key createdAt
       (filter (\<lambda>c. postId c = pid \<and> status c = Approved \<and> parentComment c = None) coll))"
  by (simp add: findApprovedByPost_def comp_def)

text \<open>
  C10. \<open>findApprovedByPost\<close> returns exactly the stored comments of the post that are
  approved and have no parent, newest first by \<open>createdAt\<close>; each comes with exactly the
  stored documents named by its reply ids whose own status is approved, oldest first. A
  reply that is not approved is in the collection and not in the result.
\<close>

theorem findApprovedByPost_result:
  "mset (map fst (findApprovedByPost coll pid)) =
      filter_mset (\<lambda>c. postId c = pid \<and> status c = Approved \<and> parentComment c = None) (mset coll)
   \<and> sorted (rev (map (createdAt \<circ> fst) (findApprovedByPost coll pid)))
   \<and> (\<forall>(c, rs) \<in> set (findApprovedByPost coll pid).
        mset rs = filter_mset (\<lambda>r. docId r \<in> set (replies c) \<and> status r = Approved) (mset coll)
        \<and> sorted (map createdAt rs))"
proof -
  have a: "mset (map fst (findApprovedByPost coll pid)) =
      filter_mset (\<lambda>c. postId c = pid \<and> status c = Approved \<and> parentComment c = None) (mset coll)"
    by (simp add: map_fst_find)
  have "map (createdAt \<circ> fst) (findApprovedByPost coll pid)
          = map createdAt (map fst (findApprovedByPost coll pid))"
    by simp
  then have b: "sorted (rev (map (createdAt \<circ> fst) (findApprovedByPost coll pid)))"
    by (simp only: map_fst_find rev_map [symmetric] rev_rev_ident sorted_sort_key)
  have c: "\<forall>(c, rs) \<in> set (findApprovedByPost coll pid).
        mset rs = filter_mset (\<lambda>r. docId r \<in> set (replies c) \<and> status r = Approved) (mset coll)
        \<and> sorted (map createdAt rs)"
    by (auto simp: findApprovedByPost_def populateReplies_def)
  from a b c show ?thesis by blast
qed

lemma sampleDoc_fields [simp]:
  "docId (sampleDoc i pid parent t st rs) = i"
  "postId (sampleDoc i pid parent t st rs) = pid"
  "parentComment (sampleDoc i pid parent t st rs) = parent"
  "createdAt (sampleDoc i pid parent t st rs) = Some t"
  "status (sampleDoc i pid parent t st rs) = st"
  "replies (sampleDoc i pid parent t st rs) = rs"
  by (simp_all add: sampleDoc_def save_def preSave_def autoFlag_def set_spamScore_def set_status_def
      touch_def timestampsPreSave_def newComment_def Let_def)

lemma findApprovedByPost_sample:
  "findApprovedByPost sampleCollection 1 =
     [(sampleDoc 2 1 None 15 Approved [], []),
      (sampleDoc 1 1 None 10 Approved [3, 4, 5],
         [sampleDoc 5 1 (Some 1) 11 Approved [], sampleDoc 3 1 (Some 1) 14 Approved []])]"
  by (simp add: findApprovedByPost_def populateReplies_def sampleCollection_def)

theorem findApprovedByPost_result_witness:
  "(sampleDoc 1 1 None 10 Approved [3, 4, 5],
      [sampleDoc 5 1 (Some 1) 11 Approved [], sampleDoc 3 1 (Some 1) 14 Approved []])
     \<in> set (findApprovedByPost sampleCollection 1)
   \<and> map fst (findApprovedByPost sampleCollection 1)
       = [sampleDoc 2 1 None 15 Approved [], sampleDoc 1 1 None 10 Approved [3, 4, 5]]
   \<and> mset [sampleDoc 5 1 (Some 1) 11 Approved [], sampleDoc 3 1 (Some 1) 14 Approved []]
       = filter_mset (\<lambda>r. docId r \<in> set (replies (sampleDoc 1 1 None 10 Approved [3, 4, 5]))
                          \<and> status r = Approved) (mset sampleCollection)
   \<and> sorted (map createdAt
        [sampleDoc 5 1 (Some 1) 11 Approved [], sampleDoc 3 1 (Some 1) 14 Approved []])"
proof -
  note r = findApprovedByPost_result [of sampleCollection 1, unfolded findApprovedByPost_sample]
  from r have "\<forall>(c, rs) \<in> set [(sampleDoc 2 1 None 15 Approved [], []),
      (sampleDoc 1 1 None 10 Approved [3, 4, 5],
         [sampleDoc 5 1 (Some 1) 11 Approved [], sampleDoc 3 1 (Some 1) 14 Approved []])].
        mset rs = filter_mset (\<lambda>r. docId r \<in> set (replies c) \<and> status r = Approved)
                    (mset sampleCollection)
        \<and> sorted (map createdAt rs)"
    by blast
  then have "mset [sampleDoc 5 1 (Some 1) 11 Approved [], sampleDoc 3 1 (Some 1) 14 Approved []]
       = filter_mset (\<lambda>r. docId r \<in> set (replies (sampleDoc 1 1 None 10 Approved [3, 4, 5]))
                          \<and> status r = Approved) (mset sampleCollection)
     \<and> sorted (map createdAt
        [sampleDoc 5 1 (Some 1) 11 Approved [], sampleDoc 3 1 (Some 1) 14 Approved []])"
    by simp
  then show ?thesis
    unfolding findApprovedByPost_sample by simp
qed

end
